theory Spec2Isabelle
  imports Complex_Main "HOL-Library.Char_ord" "HOL-Library.List_Lexorder" "HOL-Library.Multiset"
begin

section \<open>Order records and the Python primitives the scripts use\<close>

text \<open>
  Both scripts read a JSON array of order objects and look at eight keys of each.
  A key can be missing from the object, can hold JSON null (Python \<open>None\<close>), or can
  hold a value. Following the order schema, \<open>symbol\<close>, \<open>side\<close>, \<open>filled_at\<close>,
  \<open>created_at\<close> and \<open>client_order_id\<close> hold strings; the quantity and price keys
  hold a string or a number.

  Python floats are idealised as exact rationals: rounding, infinities and NaN are not
  modelled. Python compares strings by code point; on UTF-8 bytes this is the
  lexicographic order of \<open>char list\<close> used here.
\<close>

datatype error = KeyError | TypeError | ValueError | ZeroDivisionError | IndexError

datatype 'a field = Absent | Null | Present 'a

datatype scalar = Str string | Num rat

record order =
  o_symbol :: "string field"
  o_side :: "string field"
  o_qty :: "scalar field"
  o_filled_qty :: "scalar field"
  o_filled_avg_price :: "scalar field"
  o_filled_at :: "string field"
  o_created_at :: "string field"
  o_client_order_id :: "string field"

text \<open>
  \<open>float(s)\<close> on a string is Python's own parser, which is not part of the repository:
  it is a parameter, \<open>None\<close> standing for the \<open>ValueError\<close> of an unparsable string.
\<close>

type_synonym float_parser = "string \<Rightarrow> rat option"

definition and_then :: "error + 'a \<Rightarrow> ('a \<Rightarrow> error + 'b) \<Rightarrow> error + 'b" where
  "and_then r f = (case r of Inl e \<Rightarrow> Inl e | Inr x \<Rightarrow> f x)"

text \<open>\<open>order[k]\<close>: a missing key raises, null is the value \<open>None\<close>.\<close>

definition item :: "'a field \<Rightarrow> error + 'a option" where
  "item f = (case f of Absent \<Rightarrow> Inl KeyError | Null \<Rightarrow> Inr None | Present v \<Rightarrow> Inr (Some v))"

text \<open>\<open>order.get(k, d)\<close>: the default stands in for a missing key only.\<close>

definition get :: "'a field \<Rightarrow> 'a option \<Rightarrow> 'a option" where
  "get f d = (case f of Absent \<Rightarrow> d | Null \<Rightarrow> None | Present v \<Rightarrow> Some v)"

definition float :: "float_parser \<Rightarrow> scalar option \<Rightarrow> error + rat" where
  "float pf v =
     (case v of
        None \<Rightarrow> Inl TypeError
      | Some (Num r) \<Rightarrow> Inr r
      | Some (Str s) \<Rightarrow> (case pf s of None \<Rightarrow> Inl ValueError | Some r \<Rightarrow> Inr r))"

text \<open>Truth value of \<open>None\<close>, a number or a string.\<close>

definition truthy :: "scalar option \<Rightarrow> bool" where
  "truthy v = (case v of None \<Rightarrow> False | Some (Num r) \<Rightarrow> r \<noteq> 0 | Some (Str s) \<Rightarrow> s \<noteq> [])"

text \<open>\<open>a / b\<close> on floats raises on a zero divisor.\<close>

definition py_div :: "rat \<Rightarrow> rat \<Rightarrow> error + rat" where
  "py_div a b = (if b = 0 then Inl ZeroDivisionError else Inr (a / b))"

text \<open>\<open>s.split(c)\<close>: the pieces between occurrences of \<open>c\<close>, empty pieces kept.\<close>

fun str_split :: "char \<Rightarrow> string \<Rightarrow> string list" where
  "str_split c [] = [[]]"
| "str_split c (x # xs) =
     (if x = c then [] # str_split c xs
      else (x # hd (str_split c xs)) # tl (str_split c xs))"

text \<open>\<open>xs[i]\<close> for a non-negative index.\<close>

definition index :: "'a list \<Rightarrow> nat \<Rightarrow> error + 'a" where
  "index xs i = (if i < length xs then Inr (xs ! i) else Inl IndexError)"

text \<open>\<open>buys.pop(i)\<close>, as far as the list is concerned.\<close>

definition pop :: "nat \<Rightarrow> 'a list \<Rightarrow> 'a list" where
  "pop i xs = take i xs @ drop (Suc i) xs"

section \<open>analyze\_win\_rates.py\<close>

subsection \<open>Separating buys and sells\<close>

record fill =
  symbol :: "string option"
  price :: rat
  qty :: rat
  time :: string
  notional :: rat

record buy = fill +
  strategy :: string

datatype classified = Skipped | Buy buy | Sell fill

text \<open>Lines 39 to 43: the strategy of a buy, from its \<open>client_order_id\<close>.\<close>

definition strategy_of :: "string field \<Rightarrow> error + string" where
  "strategy_of f =
     (case get f (Some []) of
        None \<Rightarrow> Inr ''UNKNOWN''
      | Some client_id \<Rightarrow>
          if client_id \<noteq> [] \<and> CHR ''_'' \<in> set client_id
          then index (str_split (CHR ''_'') client_id) 1
          else Inr ''UNKNOWN'')"

text \<open>
  One pass of the loop of lines 33 to 60. The dictionary literal evaluates its entries in
  order, so a missing \<open>symbol\<close> raises before the price is parsed.
\<close>

definition classify_order :: "float_parser \<Rightarrow> order \<Rightarrow> error + classified" where
  "classify_order pf ord =
     (case get (o_filled_at ord) None of
        None \<Rightarrow> Inr Skipped
      | Some filled_at \<Rightarrow>
          and_then (item (o_side ord)) (\<lambda>side.
            if side = Some ''buy'' then
              and_then (strategy_of (o_client_order_id ord)) (\<lambda>strat.
              and_then (item (o_symbol ord)) (\<lambda>sy.
              and_then (float pf (get (o_filled_avg_price ord) (Some (Num 0)))) (\<lambda>p.
              and_then (float pf (get (o_filled_qty ord) (Some (Num 0)))) (\<lambda>q.
                Inr (Buy \<lparr>symbol = sy, price = p, qty = q, time = filled_at,
                          notional = p * q, strategy = strat\<rparr>)))))
            else if side = Some ''sell'' then
              and_then (item (o_symbol ord)) (\<lambda>sy.
              and_then (float pf (get (o_filled_avg_price ord) (Some (Num 0)))) (\<lambda>p.
              and_then (float pf (get (o_filled_qty ord) (Some (Num 0)))) (\<lambda>q.
                Inr (Sell \<lparr>symbol = sy, price = p, qty = q, time = filled_at,
                           notional = p * q\<rparr>))))
            else Inr Skipped))"

fun classify :: "float_parser \<Rightarrow> order list \<Rightarrow> buy list \<times> fill list
    \<Rightarrow> error + buy list \<times> fill list" where
  "classify pf [] acc = Inr acc"
| "classify pf (ord # orders) (buys, sells) =
     (case classify_order pf ord of
        Inl e \<Rightarrow> Inl e
      | Inr Skipped \<Rightarrow> classify pf orders (buys, sells)
      | Inr (Buy b) \<Rightarrow> classify pf orders (buys @ [b], sells)
      | Inr (Sell s) \<Rightarrow> classify pf orders (buys, sells @ [s]))"

subsection \<open>Matching sells to buys\<close>

record trade =
  t_symbol :: "string option"
  buy_price :: rat
  sell_price :: rat
  pnl :: rat
  pnl_pct :: rat
  date :: string

record stats =
  wins :: nat
  losses :: nat
  total_pnl :: rat
  trades :: "trade list"

text \<open>
  \<open>strategy_stats\<close> is a \<open>defaultdict\<close>: keys in insertion order, a key created with
  the default entry when it is first looked up.
\<close>

type_synonym strategy_stats = "(string \<times> stats) list"

definition default_stats :: stats where
  "default_stats = \<lparr>wins = 0, losses = 0, total_pnl = 0, trades = []\<rparr>"

fun update_stats :: "string \<Rightarrow> (stats \<Rightarrow> stats) \<Rightarrow> strategy_stats \<Rightarrow> strategy_stats" where
  "update_stats k f [] = [(k, f default_stats)]"
| "update_stats k f ((k', v) # rest) =
     (if k' = k then (k', f v) # rest else (k', v) # update_stats k f rest)"

definition lookup_stats :: "strategy_stats \<Rightarrow> string \<Rightarrow> stats" where
  "lookup_stats st k = (case map_of st k of None \<Rightarrow> default_stats | Some v \<Rightarrow> v)"

text \<open>Line 73, the test a buy has to pass to be matched with a sell.\<close>

definition eligible :: "'a fill_scheme \<Rightarrow> 'b fill_scheme \<Rightarrow> bool" where
  "eligible b s \<longleftrightarrow> symbol b = symbol s \<and> time b < time s"

text \<open>The inner loop of line 72: the first buy that passes, with its index.\<close>

fun first_match :: "fill \<Rightarrow> buy list \<Rightarrow> nat \<Rightarrow> (nat \<times> buy) option" where
  "first_match s [] i = None"
| "first_match s (b # bs) i =
     (if eligible b s then Some (i, b) else first_match s bs (Suc i))"

text \<open>Lines 79 to 93: the trade is appended, one counter goes up, the total grows.\<close>

definition record_trade :: "trade \<Rightarrow> stats \<Rightarrow> stats" where
  "record_trade t s =
     (let s1 = s\<lparr>trades := trades s @ [t]\<rparr>;
          s2 = (if pnl t > 0 then s1\<lparr>wins := wins s1 + 1\<rparr>
                else s1\<lparr>losses := losses s1 + 1\<rparr>)
      in s2\<lparr>total_pnl := total_pnl s2 + pnl t\<rparr>)"

definition match_sell :: "fill \<Rightarrow> buy list \<times> strategy_stats
    \<Rightarrow> error + buy list \<times> strategy_stats" where
  "match_sell s = (\<lambda>(buys, st).
     case first_match s buys 0 of
       None \<Rightarrow> Inr (buys, st)
     | Some (i, b) \<Rightarrow>
         let p = notional s - notional b in
         and_then (py_div p (notional b)) (\<lambda>d.
           let t = \<lparr>t_symbol = symbol b, buy_price = price b, sell_price = price s,
                    pnl = p, pnl_pct = d * 100, date = take 10 (time b)\<rparr>
           in Inr (pop i buys, update_stats (strategy b) (record_trade t) st)))"

fun match_sells :: "fill list \<Rightarrow> buy list \<times> strategy_stats
    \<Rightarrow> error + buy list \<times> strategy_stats" where
  "match_sells [] acc = Inr acc"
| "match_sells (s # sells) acc =
     (case match_sell s acc of Inl e \<Rightarrow> Inl e | Inr acc' \<Rightarrow> match_sells sells acc')"

text \<open>
  The script up to line 97: classify, sort both lists by time (Python's sort is stable,
  as \<open>sort_key\<close> is), match. The result is the buys left open and the statistics the
  printing reads.
\<close>

definition analyze_win_rates :: "float_parser \<Rightarrow> order list
    \<Rightarrow> error + buy list \<times> strategy_stats" where
  "analyze_win_rates pf orders =
     and_then (classify pf orders ([], [])) (\<lambda>(buys, sells).
       match_sells (sort_key time sells) (sort_key time buys, []))"

section \<open>analyze\_trades.py\<close>

text \<open>
  What line 28 prints for one order. The text layout (column widths, two decimals) is
  presentation; the row keeps the values that are formatted.
\<close>

record row =
  r_symbol :: string
  r_side :: string
  r_qty :: scalar
  r_price :: rat
  r_notional :: rat
  r_time :: string

record legs =
  buys :: "rat list"
  sells :: "rat list"

text \<open>\<open>pairs\<close> is a dictionary from symbol to the two lists, in insertion order.\<close>

type_synonym pairs = "(string \<times> legs) list"

record report_state =
  rows :: "row list"
  total_buy :: rat
  total_sell :: rat
  pairs :: pairs

text \<open>
  A format specification such as \<open><10\<close> applied to \<open>None\<close> raises \<open>TypeError\<close>;
  strings and numbers accept it.
\<close>

definition format :: "'a option \<Rightarrow> error + 'a" where
  "format v = (case v of None \<Rightarrow> Inl TypeError | Some x \<Rightarrow> Inr x)"

text \<open>Line 21.\<close>

definition order_notional :: "float_parser \<Rightarrow> order \<Rightarrow> error + rat" where
  "order_notional pf ord =
     (if truthy (get (o_filled_avg_price ord) None) then
        and_then (float pf (get (o_filled_avg_price ord) (Some (Num 0)))) (\<lambda>p.
        and_then (float pf (get (o_filled_qty ord) (Some (Num 0)))) (\<lambda>q. Inr (p * q)))
      else Inr 0)"

text \<open>Lines 22 to 26.\<close>

definition order_time :: "order \<Rightarrow> string" where
  "order_time ord =
     (case get (o_filled_at ord) (get (o_created_at ord) (Some [])) of
        None \<Rightarrow> ''N/A''
      | Some filled_at \<Rightarrow> if filled_at \<noteq> [] then take 19 filled_at else ''N/A'')"

text \<open>Lines 17 to 28: the row of an order, or the exception raised on the way.\<close>

definition make_row :: "float_parser \<Rightarrow> order \<Rightarrow> error + row" where
  "make_row pf ord =
     and_then (item (o_symbol ord)) (\<lambda>sy.
     and_then (item (o_side ord)) (\<lambda>sd.
     and_then (order_notional pf ord) (\<lambda>n.
     and_then (format sy) (\<lambda>sy'.
     and_then (format sd) (\<lambda>sd'.
     and_then (format (get (o_filled_qty ord) (get (o_qty ord) (Some (Str ''0''))))) (\<lambda>q.
     and_then (float pf (get (o_filled_avg_price ord) (Some (Str ''0'')))) (\<lambda>p.
       Inr \<lparr>r_symbol = sy', r_side = sd', r_qty = q, r_price = p, r_notional = n,
            r_time = order_time ord\<rparr>)))))))"

text \<open>Lines 32 to 34 and 37 to 39.\<close>

fun add_leg :: "string \<Rightarrow> (legs \<Rightarrow> legs) \<Rightarrow> pairs \<Rightarrow> pairs" where
  "add_leg k f [] = [(k, f \<lparr>buys = [], sells = []\<rparr>)]"
| "add_leg k f ((k', v) # rest) =
     (if k' = k then (k', f v) # rest else (k', v) # add_leg k f rest)"

text \<open>Lines 30 to 39: a side that is neither \<open>buy\<close> nor \<open>sell\<close> falls through.\<close>

definition dispatch :: "row \<Rightarrow> report_state \<Rightarrow> report_state" where
  "dispatch r st =
     (if r_side r = ''buy'' then
        st\<lparr>total_buy := total_buy st + r_notional r,
           pairs := add_leg (r_symbol r) (\<lambda>l. l\<lparr>buys := buys l @ [r_notional r]\<rparr>) (pairs st)\<rparr>
      else if r_side r = ''sell'' then
        st\<lparr>total_sell := total_sell st + r_notional r,
           pairs := add_leg (r_symbol r) (\<lambda>l. l\<lparr>sells := sells l @ [r_notional r]\<rparr>) (pairs st)\<rparr>
      else st)"

definition process_order :: "float_parser \<Rightarrow> order \<Rightarrow> report_state \<Rightarrow> error + report_state" where
  "process_order pf ord st =
     and_then (make_row pf ord) (\<lambda>r. Inr (dispatch r (st\<lparr>rows := rows st @ [r]\<rparr>)))"

text \<open>
  The loop of line 16. A row that has been printed stays printed: when an order raises,
  the state reached so far comes back with the exception.
\<close>

fun process_orders :: "float_parser \<Rightarrow> order list \<Rightarrow> report_state
    \<Rightarrow> error \<times> report_state + report_state" where
  "process_orders pf [] st = Inr st"
| "process_orders pf (ord # orders) st =
     (case process_order pf ord st of
        Inl e \<Rightarrow> Inl (e, st)
      | Inr st' \<Rightarrow> process_orders pf orders st')"

definition initial_state :: report_state where
  "initial_state = \<lparr>rows = [], total_buy = 0, total_sell = 0, pairs = []\<rparr>"

text \<open>Lines 50 to 62: the per-symbol breakdown, symbols in sorted order.\<close>

datatype breakdown_line =
  Closed string rat rat rat | Still_open string rat | Close_only string rat | No_line

definition breakdown_line :: "string \<Rightarrow> legs \<Rightarrow> breakdown_line" where
  "breakdown_line smb tr =
     (let buy_sum = sum_list (buys tr); sell_sum = sum_list (sells tr) in
      if length (buys tr) > 0 \<and> length (sells tr) > 0
      then Closed smb buy_sum sell_sum (sell_sum - buy_sum)
      else if length (buys tr) > 0 then Still_open smb buy_sum
      else if length (sells tr) > 0 then Close_only smb sell_sum
      else No_line)"

fun breakdown :: "pairs \<Rightarrow> rat \<times> breakdown_line list \<Rightarrow> rat \<times> breakdown_line list" where
  "breakdown [] acc = acc"
| "breakdown ((smb, tr) # rest) (tot, out) =
     breakdown rest
       (tot + (sum_list (sells tr) - sum_list (buys tr)), out @ [breakdown_line smb tr])"

record report =
  final :: report_state
  net_pnl :: rat
  realized_pnl :: rat
  per_symbol :: "breakdown_line list"

text \<open>
  The whole script: the rows, lines 42 to 44 (\<open>net_pnl\<close> is line 44), then the
  breakdown (\<open>realized_pnl\<close> is line 65).
\<close>

definition analyze_trades :: "float_parser \<Rightarrow> order list \<Rightarrow> error \<times> report_state + report" where
  "analyze_trades pf orders =
     (case process_orders pf orders initial_state of
        Inl err \<Rightarrow> Inl err
      | Inr st \<Rightarrow>
          (let (tot, out) = breakdown (sort_key fst (pairs st)) (0, [])
           in Inr \<lparr>final = st, net_pnl = total_sell st - total_buy st,
                   realized_pnl = tot, per_symbol = out\<rparr>))"

section \<open>Specification-level notions\<close>

text \<open>
  The strategy tag as the specification words it: the second token of the identifier
  when it holds the delimiter, \<open>UNKNOWN\<close> otherwise. The second token is what lies
  between the first delimiter and the next one (or the end).
\<close>

definition second_token :: "string \<Rightarrow> string" where
  "second_token s = takeWhile (\<lambda>c. c \<noteq> CHR ''_'') (tl (dropWhile (\<lambda>c. c \<noteq> CHR ''_'') s))"

definition tag_spec :: "string field \<Rightarrow> string" where
  "tag_spec f =
     (case f of
        Present cid \<Rightarrow> if CHR ''_'' \<in> set cid then second_token cid else ''UNKNOWN''
      | _ \<Rightarrow> ''UNKNOWN'')"

text \<open>The trade built at lines 75 to 86 from a buy and a sell, when the division is defined.\<close>

definition make_trade :: "buy \<Rightarrow> fill \<Rightarrow> trade" where
  "make_trade b s =
     \<lparr>t_symbol = symbol b, buy_price = price b, sell_price = price s,
      pnl = notional s - notional b,
      pnl_pct = (notional s - notional b) / notional b * 100,
      date = take 10 (time b)\<rparr>"

text \<open>The two counters of a strategy agree with its list of trades.\<close>

definition tally_ok :: "stats \<Rightarrow> bool" where
  "tally_ok s \<longleftrightarrow>
     wins s = length (filter (\<lambda>t. pnl t > 0) (trades s)) \<and>
     losses s = length (filter (\<lambda>t. pnl t \<le> 0) (trades s))"

section \<open>Inputs used in the examples\<close>

text \<open>A parser for the examples: unsigned decimal integers, nothing else.\<close>

definition digit_val :: "char \<Rightarrow> nat option" where
  "digit_val c = (if CHR ''0'' \<le> c \<and> c \<le> CHR ''9'' then Some (of_char c - 48) else None)"

fun digits :: "string \<Rightarrow> nat \<Rightarrow> nat option" where
  "digits [] acc = Some acc"
| "digits (c # cs) acc =
     (case digit_val c of None \<Rightarrow> None | Some d \<Rightarrow> digits cs (10 * acc + d))"

definition decimal :: float_parser where
  "decimal s = (if s = [] then None else map_option of_nat (digits s 0))"

definition empty_order :: order where
  "empty_order = \<lparr>o_symbol = Absent, o_side = Absent, o_qty = Absent, o_filled_qty = Absent,
     o_filled_avg_price = Absent, o_filled_at = Absent, o_created_at = Absent,
     o_client_order_id = Absent\<rparr>"

text \<open>A filled order as the brokerage reports it.\<close>

definition filled_order :: "string \<Rightarrow> string \<Rightarrow> string \<Rightarrow> string \<Rightarrow> string \<Rightarrow> string \<Rightarrow> order" where
  "filled_order smb sd q p t cid =
     \<lparr>o_symbol = Present smb, o_side = Present sd, o_qty = Present (Str q),
      o_filled_qty = Present (Str q), o_filled_avg_price = Present (Str p),
      o_filled_at = Present t, o_created_at = Present t, o_client_order_id = Present cid\<rparr>"

text \<open>A buy and a sell of the same notional, one hour apart.\<close>

definition break_even_orders :: "order list" where
  "break_even_orders =
     [filled_order ''AAPL'' ''buy'' ''10'' ''100'' ''2026-01-14T10:00:00Z'' ''lft_dip_1'',
      filled_order ''AAPL'' ''sell'' ''10'' ''100'' ''2026-01-14T11:00:00Z'' ''lft_exit_2'']"

definition break_even_stats :: strategy_stats where
  "break_even_stats =
     [(''dip'', \<lparr>wins = 0, losses = 1, total_pnl = 0,
        trades = [\<lparr>t_symbol = Some ''AAPL'', buy_price = 100, sell_price = 100, pnl = 0,
                   pnl_pct = 0, date = ''2026-01-14''\<rparr>]\<rparr>)]"

text \<open>
  A filled buy whose record carries neither price nor quantity (both default to 0 at
  lines 48 to 51), followed by a sell of the same symbol.
\<close>

definition zero_notional_orders :: "order list" where
  "zero_notional_orders =
     [empty_order\<lparr>o_symbol := Present ''AAPL'', o_side := Present ''buy'',
                  o_filled_at := Present ''2026-01-14T10:00:00Z''\<rparr>,
      filled_order ''AAPL'' ''sell'' ''10'' ''110'' ''2026-01-14T11:00:00Z'' ''lft_exit_2'']"

text \<open>The same with the keys present: a buy reported as filled at price 0.\<close>

definition zero_price_orders :: "order list" where
  "zero_price_orders =
     [filled_order ''AAPL'' ''buy'' ''10'' ''0'' ''2026-01-14T10:00:00Z'' ''lft_dip_1'',
      filled_order ''AAPL'' ''sell'' ''10'' ''110'' ''2026-01-14T11:00:00Z'' ''lft_exit_2'']"

text \<open>A classified buy of strategy \<open>dip\<close> and a sell of the same symbol one hour later.\<close>

definition dip_buy :: buy where
  "dip_buy = \<lparr>symbol = Some ''AAPL'', price = 100, qty = 10, time = ''2026-01-14T10:00:00Z'',
     notional = 1000, strategy = ''dip''\<rparr>"

definition later_sell :: fill where
  "later_sell = \<lparr>symbol = Some ''AAPL'', price = 100, qty = 10, time = ''2026-01-14T11:00:00Z'',
     notional = 1000\<rparr>"

text \<open>The test of line 34, negated: \<open>filled_at\<close> is present and not null.\<close>

definition has_fill_time :: "order \<Rightarrow> bool" where
  "has_fill_time ord \<longleftrightarrow> get (o_filled_at ord) None \<noteq> None"

text \<open>The side is one of the two the scripts dispatch on.\<close>

definition recognised :: "order \<Rightarrow> bool" where
  "recognised ord \<longleftrightarrow> o_side ord = Present ''buy'' \<or> o_side ord = Present ''sell''"

text \<open>An open buy order: no fill time, no fill price, only the requested quantity.\<close>

definition unfilled_buy :: order where
  "unfilled_buy = empty_order\<lparr>o_symbol := Present ''AAPL'', o_side := Present ''buy'',
     o_qty := Present (Str ''10'')\<rparr>"

text \<open>A filled order whose side is neither \<open>buy\<close> nor \<open>sell\<close>.\<close>

definition hold_order :: order where
  "hold_order = filled_order ''AAPL'' ''hold'' ''10'' ''100'' ''2026-01-14T10:00:00Z'' ''lft_dip_1''"


text \<open>A record with a fill time and nothing else: no \<open>side\<close>, no \<open>symbol\<close>.\<close>

definition no_side_order :: order where
  "no_side_order = empty_order\<lparr>o_filled_at := Present ''2026-01-14T12:00:00Z''\<rparr>"

text \<open>A filled buy, its row, and the state after it alone has been processed.\<close>

definition dip_order :: order where
  "dip_order = filled_order ''AAPL'' ''buy'' ''10'' ''100'' ''2026-01-14T10:00:00Z'' ''lft_dip_1''"

definition dip_row :: row where
  "dip_row = \<lparr>r_symbol = ''AAPL'', r_side = ''buy'', r_qty = Str ''10'', r_price = 100,
     r_notional = 1000, r_time = ''2026-01-14T10:00:00''\<rparr>"

definition dip_state :: report_state where
  "dip_state = \<lparr>rows = [dip_row], total_buy = 1000, total_sell = 0,
     pairs = [(''AAPL'', \<lparr>buys = [1000], sells = []\<rparr>)]\<rparr>"








text \<open>The matching rule as the specification words it: for each sell in turn, the first buy
  of the remaining pool with the sell's symbol and a strictly earlier time is matched
  and leaves the pool; a sell with no such buy matches nothing. The result is the
  matched pairs in match order and the buys left over.\<close>

fun fifo_match :: "fill list \<Rightarrow> buy list \<Rightarrow> (buy \<times> fill) list \<times> buy list" where
  "fifo_match [] pool = ([], pool)"
| "fifo_match (s # ss) pool =
     (case find (\<lambda>b. symbol b = symbol s \<and> time b < time s) pool of
        None \<Rightarrow> fifo_match ss pool
      | Some b \<Rightarrow>
          (case fifo_match ss (remove1 b pool) of (ms, left) \<Rightarrow> ((b, s) # ms, left)))"

text \<open>Filing the trade of one matched pair under the strategy of its buy.\<close>

definition file_trade :: "strategy_stats \<Rightarrow> buy \<times> fill \<Rightarrow> strategy_stats" where
  "file_trade st m = update_stats (strategy (fst m)) (record_trade (make_trade (fst m) (snd m))) st"

text \<open>The specification's example, shuffled: buys at T1 and T2, a sell at T3, and a buy of another symbol before them.\<close>

definition two_buys_orders :: "order list" where
  "two_buys_orders =
     [filled_order ''AAPL'' ''sell'' ''1'' ''120'' ''2026-01-14T12:00:00Z'' ''lft_exit_3'',
      filled_order ''AAPL'' ''buy'' ''1'' ''110'' ''2026-01-14T11:00:00Z'' ''lft_gap_2'',
      filled_order ''MSFT'' ''buy'' ''1'' ''300'' ''2026-01-14T09:30:00Z'' ''lft_gap_0'',
      filled_order ''AAPL'' ''buy'' ''1'' ''100'' ''2026-01-14T10:00:00Z'' ''lft_dip_1'']"

definition buy_MSFT :: buy where
  "buy_MSFT = \<lparr>symbol = Some ''MSFT'', price = 300, qty = 1, time = ''2026-01-14T09:30:00Z'',
     notional = 300, strategy = ''gap''\<rparr>"

definition buy_T1 :: buy where
  "buy_T1 = \<lparr>symbol = Some ''AAPL'', price = 100, qty = 1, time = ''2026-01-14T10:00:00Z'',
     notional = 100, strategy = ''dip''\<rparr>"

definition buy_T2 :: buy where
  "buy_T2 = \<lparr>symbol = Some ''AAPL'', price = 110, qty = 1, time = ''2026-01-14T11:00:00Z'',
     notional = 110, strategy = ''gap''\<rparr>"

definition sell_T3 :: fill where
  "sell_T3 = \<lparr>symbol = Some ''AAPL'', price = 120, qty = 1, time = ''2026-01-14T12:00:00Z'',
     notional = 120\<rparr>"


definition dip_stats :: strategy_stats where
  "dip_stats = [(''dip'', \<lparr>wins = 1, losses = 0, total_pnl = 20,
     trades = [\<lparr>t_symbol = Some ''AAPL'', buy_price = 100, sell_price = 120, pnl = 20,
                pnl_pct = 20, date = ''2026-01-14''\<rparr>]\<rparr>)]"

text \<open>Every matched trade of a run, strategy by strategy.\<close>

definition all_trades :: "strategy_stats \<Rightarrow> trade list" where
  "all_trades st = concat (map (\<lambda>(k, s). trades s) st)"

text \<open>The trade of a matched pair.\<close>

definition trade_of :: "buy \<times> fill \<Rightarrow> trade" where
  "trade_of m = make_trade (fst m) (snd m)"

text \<open>The buys and the sells a batch classifies to, record by record.\<close>

definition buys_of :: "float_parser \<Rightarrow> order list \<Rightarrow> buy list" where
  "buys_of pf orders =
     concat (map (\<lambda>ord. case classify_order pf ord of Inr (Buy b) \<Rightarrow> [b] | _ \<Rightarrow> []) orders)"

definition sells_of :: "float_parser \<Rightarrow> order list \<Rightarrow> fill list" where
  "sells_of pf orders =
     concat (map (\<lambda>ord. case classify_order pf ord of Inr (Sell s) \<Rightarrow> [s] | _ \<Rightarrow> []) orders)"

text \<open>Two buys of one symbol filled at the same instant at different prices, then a sell; and the same batch with the two buys swapped.\<close>

definition tie_orders :: "order list" where
  "tie_orders =
     [filled_order ''AAPL'' ''buy'' ''1'' ''100'' ''2026-01-14T10:00:00Z'' ''lft_dip_1'',
      filled_order ''AAPL'' ''buy'' ''1'' ''90'' ''2026-01-14T10:00:00Z'' ''lft_gap_2'',
      filled_order ''AAPL'' ''sell'' ''1'' ''110'' ''2026-01-14T11:00:00Z'' ''lft_exit_3'']"

definition tie_orders_swapped :: "order list" where
  "tie_orders_swapped =
     [filled_order ''AAPL'' ''buy'' ''1'' ''90'' ''2026-01-14T10:00:00Z'' ''lft_gap_2'',
      filled_order ''AAPL'' ''buy'' ''1'' ''100'' ''2026-01-14T10:00:00Z'' ''lft_dip_1'',
      filled_order ''AAPL'' ''sell'' ''1'' ''110'' ''2026-01-14T11:00:00Z'' ''lft_exit_3'']"

section \<open>Properties\<close>

subsection \<open>Strategy tags\<close>

lemma str_split_nonempty: "str_split c s \<noteq> []"
  by (induction s) auto

lemma hd_str_split: "hd (str_split c s) = takeWhile (\<lambda>x. x \<noteq> c) s"
  by (induction s) auto

lemma tl_str_split: "c \<in> set s \<Longrightarrow> tl (str_split c s) = str_split c (tl (dropWhile (\<lambda>x. x \<noteq> c) s))"
  by (induction s) auto

lemma length_str_split: "length (str_split c s) = Suc (length (filter (\<lambda>x. x = c) s))"
  by (induction s) (auto simp: str_split_nonempty)

lemma str_split_second:
  assumes "c \<in> set s"
  shows "index (str_split c s) (Suc 0) = Inr (takeWhile (\<lambda>x. x \<noteq> c) (tl (dropWhile (\<lambda>x. x \<noteq> c) s)))"
proof -
  from assms have "filter (\<lambda>x. x = c) s \<noteq> []"
    by (auto simp: filter_empty_conv)
  then have len: "1 < length (str_split c s)"
    by (cases "filter (\<lambda>x. x = c) s") (auto simp: length_str_split)
  have "str_split c s ! Suc 0 = hd (tl (str_split c s))"
    using len by (cases "str_split c s"; cases "tl (str_split c s)") auto
  also have "\<dots> = takeWhile (\<lambda>x. x \<noteq> c) (tl (dropWhile (\<lambda>x. x \<noteq> c) s))"
    using assms by (simp add: tl_str_split hd_str_split)
  finally show ?thesis using len by (simp add: index_def)
qed

lemma strategy_of_spec: "strategy_of f = Inr (tag_spec f)"
  by (cases f) (auto simp: strategy_of_def tag_spec_def get_def second_token_def str_split_second)

lemma lookup_update_stats:
  "lookup_stats (update_stats k f st) k' = (if k' = k then f (lookup_stats st k) else lookup_stats st k')"
  by (induction st) (auto simp: lookup_stats_def)

lemma classify_order_strategy:
  "classify_order pf ord = Inr (Buy b) \<Longrightarrow> strategy b = tag_spec (o_client_order_id ord)"
  by (auto simp: classify_order_def and_then_def strategy_of_spec split: option.splits sum.splits if_splits)

subsection \<open>Wins and losses\<close>

lemma record_trade_eq:
  "record_trade t s =
     s\<lparr>trades := trades s @ [t],
       wins := wins s + (if pnl t > 0 then 1 else 0),
       losses := losses s + (if pnl t > 0 then 0 else 1),
       total_pnl := total_pnl s + pnl t\<rparr>"
  by (simp add: record_trade_def Let_def)

lemma tally_ok_record_trade: "tally_ok s \<Longrightarrow> tally_ok (record_trade t s)"
  by (auto simp: tally_ok_def record_trade_eq)

lemma tally_ok_default: "tally_ok default_stats"
  by (simp add: tally_ok_def default_stats_def)

lemma lookup_stats_Nil: "lookup_stats [] k = default_stats"
  by (simp add: lookup_stats_def)

lemma match_sell_cases:
  "match_sell s (bs, st) =
     (case first_match s bs 0 of
        None \<Rightarrow> Inr (bs, st)
      | Some (i, b) \<Rightarrow>
          if notional b = 0 then Inl ZeroDivisionError
          else Inr (pop i bs, update_stats (strategy b) (record_trade (make_trade b s)) st))"
  by (simp add: match_sell_def py_div_def and_then_def make_trade_def Let_def split: option.splits)

lemma match_sell_tally:
  assumes "match_sell s (bs, st) = Inr (bs', st')" and "\<forall>k. tally_ok (lookup_stats st k)"
  shows "\<forall>k. tally_ok (lookup_stats st' k)"
  using assms
  by (auto simp: match_sell_cases lookup_update_stats tally_ok_record_trade
      split: option.splits if_splits)

lemma match_sells_tally:
  "match_sells ss (bs, st) = Inr (bs', st') \<Longrightarrow> \<forall>k. tally_ok (lookup_stats st k)
    \<Longrightarrow> \<forall>k. tally_ok (lookup_stats st' k)"
proof (induction ss arbitrary: bs st)
  case Nil
  then show ?case by simp
next
  case (Cons s ss)
  from Cons.prems(1) obtain bs1 st1 where
    step: "match_sell s (bs, st) = Inr (bs1, st1)" and
    rest: "match_sells ss (bs1, st1) = Inr (bs', st')"
    by (auto split: sum.splits)
  from match_sell_tally[OF step Cons.prems(2)] Cons.IH[OF rest] show ?case by blast
qed

lemma analyze_win_rates_tally:
  assumes "analyze_win_rates pf orders = Inr (open_buys, st)"
  shows "tally_ok (lookup_stats st k)"
proof -
  from assms obtain bs ss where
    "match_sells (sort_key time ss) (sort_key time bs, []) = Inr (open_buys, st)"
    by (auto simp: analyze_win_rates_def and_then_def split: sum.splits)
  from match_sells_tally[OF this] show ?thesis
    by (simp add: lookup_stats_Nil tally_ok_default)
qed

text \<open>
  Claim C7. A matched trade with \<open>pnl > 0\<close> adds one to the wins of its strategy and
  any other trade, a break-even one included, adds one to its losses; exactly one of the
  two counters moves. After a run, each strategy's wins count its trades with
  \<open>pnl > 0\<close> and its losses those with \<open>pnl \<le> 0\<close>.
\<close>

theorem win_loss_classification:
  "record_trade t s =
     s\<lparr>trades := trades s @ [t],
       wins := wins s + (if pnl t > 0 then 1 else 0),
       losses := losses s + (if pnl t \<le> 0 then 1 else 0),
       total_pnl := total_pnl s + pnl t\<rparr> \<and>
   (analyze_win_rates pf orders = Inr (open_buys, st) \<longrightarrow>
      wins (lookup_stats st k) = length (filter (\<lambda>t. pnl t > 0) (trades (lookup_stats st k))) \<and>
      losses (lookup_stats st k) = length (filter (\<lambda>t. pnl t \<le> 0) (trades (lookup_stats st k))))"
proof (intro conjI impI)
  show "record_trade t s =
     s\<lparr>trades := trades s @ [t],
       wins := wins s + (if pnl t > 0 then 1 else 0),
       losses := losses s + (if pnl t \<le> 0 then 1 else 0),
       total_pnl := total_pnl s + pnl t\<rparr>"
    by (simp add: record_trade_eq)
next
  assume run: "analyze_win_rates pf orders = Inr (open_buys, st)"
  from analyze_win_rates_tally[OF run, of k]
  show "wins (lookup_stats st k) = length (filter (\<lambda>t. pnl t > 0) (trades (lookup_stats st k)))"
    and "losses (lookup_stats st k) = length (filter (\<lambda>t. pnl t \<le> 0) (trades (lookup_stats st k)))"
    by (simp_all add: tally_ok_def)
qed

theorem win_loss_classification_witness:
  "analyze_win_rates decimal break_even_orders = Inr ([], break_even_stats) \<and>
   wins (lookup_stats break_even_stats ''dip'') = 0 \<and>
   losses (lookup_stats break_even_stats ''dip'') = 1 \<and>
   length (filter (\<lambda>t. pnl t \<le> 0) (trades (lookup_stats break_even_stats ''dip''))) = 1"
proof -
  have run: "analyze_win_rates decimal break_even_orders = Inr ([], break_even_stats)"
    by code_simp
  have w: "wins (lookup_stats break_even_stats ''dip'') = 0"
    and l: "losses (lookup_stats break_even_stats ''dip'') = 1"
    by (simp_all add: break_even_stats_def lookup_stats_def)
  from win_loss_classification[of _ _ decimal break_even_orders "[]" break_even_stats "''dip''"] run l
  have "length (filter (\<lambda>t. pnl t \<le> 0) (trades (lookup_stats break_even_stats ''dip''))) = 1"
    by simp
  with run w l show ?thesis by simp
qed

text \<open>
  Claim C9. The strategy of a buy is the second \<open>_\<close>-separated token of its
  \<open>client_order_id\<close> when the identifier is present and holds a \<open>_\<close>, and
  \<open>UNKNOWN\<close> otherwise (key missing, null, or no delimiter); deriving it never raises.
  A matched trade is filed under the strategy of its buy, and under no other.
\<close>

theorem strategy_tag_derivation:
  "strategy_of f = Inr (tag_spec f) \<and>
   (classify_order pf ord = Inr (Buy b) \<longrightarrow> strategy b = tag_spec (o_client_order_id ord)) \<and>
   (first_match s bs 0 = Some (i, b') \<and> notional b' \<noteq> 0 \<longrightarrow>
      (\<exists>st'. match_sell s (bs, st) = Inr (pop i bs, st') \<and>
         trades (lookup_stats st' (strategy b')) =
           trades (lookup_stats st (strategy b')) @ [make_trade b' s] \<and>
         (\<forall>k. k \<noteq> strategy b' \<longrightarrow> lookup_stats st' k = lookup_stats st k)))"
  by (auto simp: strategy_of_spec classify_order_strategy match_sell_cases lookup_update_stats
      record_trade_eq)

theorem strategy_tag_derivation_witness:
  "classify_order decimal
     (filled_order ''AAPL'' ''buy'' ''10'' ''100'' ''2026-01-14T10:00:00Z'' ''lft_dip_1'') =
     Inr (Buy dip_buy) \<and>
   strategy dip_buy = ''dip'' \<and>
   tag_spec (Present ''lft_dip_1'') = ''dip'' \<and>
   first_match later_sell [dip_buy] 0 = Some (0, dip_buy) \<and> 
   (\<exists>st'. match_sell later_sell ([dip_buy], []) = Inr ([], st') \<and>
       trades (lookup_stats st' ''dip'') = [make_trade dip_buy later_sell])"
proof -
  let ?ord = "filled_order ''AAPL'' ''buy'' ''10'' ''100'' ''2026-01-14T10:00:00Z'' ''lft_dip_1''"
  have c: "classify_order decimal ?ord = Inr (Buy dip_buy)"
    by code_simp
  have cid: "o_client_order_id ?ord = Present ''lft_dip_1''"
    by (simp add: filled_order_def)
  have fm: "first_match later_sell [dip_buy] 0 = Some (0, dip_buy)"
    by code_simp
  have nz: "notional dip_buy \<noteq> 0"
    by (simp add: dip_buy_def)
  have sd: "strategy dip_buy = ''dip''"
    by (simp add: dip_buy_def)
  note inst = strategy_tag_derivation[of "Present ''lft_dip_1''" decimal ?ord dip_buy
      later_sell "[dip_buy]" 0 dip_buy "[]"]
  from inst c cid sd have tag: "tag_spec (Present ''lft_dip_1'') = ''dip''"
    by simp
  from inst fm nz obtain st' where
    "match_sell later_sell ([dip_buy], []) = Inr (pop 0 [dip_buy], st')"
    "trades (lookup_stats st' (strategy dip_buy)) =
       trades (lookup_stats [] (strategy dip_buy)) @ [make_trade dip_buy later_sell]"
    by blast
  then have "\<exists>st'. match_sell later_sell ([dip_buy], []) = Inr ([], st') \<and>
       trades (lookup_stats st' ''dip'') = [make_trade dip_buy later_sell]"
    by (simp add: pop_def sd lookup_stats_Nil default_stats_def)
  with c sd tag fm show ?thesis by blast
qed

subsection \<open>Division by a zero notional\<close>

text \<open>
  Claim C2. When the matched buy has notional zero, \<open>pnl_pct\<close> should come out as an
  explicit undefined value. The code divides at line 76 with no guard: on a filled buy
  without price and quantity, matched by a later sell, the run ends in
  \<open>ZeroDivisionError\<close>.
\<close>

theorem pnl_pct_zero_notional_raises:
  "classify decimal zero_notional_orders ([], []) =
     Inr ([\<lparr>symbol = Some ''AAPL'', price = 0, qty = 0, time = ''2026-01-14T10:00:00Z'',
             notional = 0, strategy = ''UNKNOWN''\<rparr>],
          [\<lparr>symbol = Some ''AAPL'', price = 110, qty = 10, time = ''2026-01-14T11:00:00Z'',
             notional = 1100\<rparr>]) \<and>
   analyze_win_rates decimal zero_notional_orders = Inl ZeroDivisionError \<and>
   analyze_win_rates decimal zero_price_orders = Inl ZeroDivisionError"
  by code_simp

subsection \<open>Records without a fill time\<close>

lemma classify_order_unfilled: "\<not> has_fill_time ord \<Longrightarrow> classify_order pf ord = Inr Skipped"
  by (simp add: has_fill_time_def classify_order_def)

lemma classify_filter_filled:
  "classify pf (filter has_fill_time orders) acc = classify pf orders acc"
proof (induction orders arbitrary: acc)
  case Nil
  show ?case by simp
next
  case (Cons ord orders)
  obtain bs ss where acc: "acc = (bs, ss)" by (cases acc)
  show ?case
  proof (cases "has_fill_time ord")
    case True
    then show ?thesis
      by (simp add: acc Cons.IH split: sum.splits classified.splits)
  next
    case False
    then show ?thesis
      by (simp add: acc Cons.IH classify_order_unfilled)
  qed
qed

text \<open>
  Claim C3, as amended. In \<open>analyze_win_rates.py\<close> every record without a fill
  time (key missing or null) is discarded, without error and before any other key is
  read: classification and the whole run give the same result as on the batch with those
  records removed, so they take part in no matching and no strategy statistic.
  (\<open>analyze_trades.py\<close> has no such filter, see the counterexample.)
\<close>

theorem unfilled_discarded:
  "classify pf orders acc = classify pf (filter has_fill_time orders) acc \<and>
   analyze_win_rates pf orders = analyze_win_rates pf (filter has_fill_time orders)"
  by (simp add: classify_filter_filled analyze_win_rates_def)

text \<open>
  Claim C3 as stated fails for \<open>analyze_trades.py\<close>: an order without fill time is
  printed as a row, with time \<open>N/A\<close>, and enters the per-symbol lists and the
  breakdown.
\<close>

theorem unfilled_row_counterexample:
  "get (o_filled_at unfilled_buy) None = None \<and>
   analyze_trades decimal [unfilled_buy] =
     Inr \<lparr>final = \<lparr>rows = [\<lparr>r_symbol = ''AAPL'', r_side = ''buy'', r_qty = Str ''10'',
                              r_price = 0, r_notional = 0, r_time = ''N/A''\<rparr>],
                    total_buy = 0, total_sell = 0,
                    pairs = [(''AAPL'', \<lparr>buys = [0], sells = []\<rparr>)]\<rparr>,
          net_pnl = 0, realized_pnl = 0, per_symbol = [Still_open ''AAPL'' 0]\<rparr>"
  by code_simp

subsection \<open>Records without side or symbol\<close>

lemma make_row_KeyError:
  "o_symbol ord = Absent \<or> o_side ord = Absent \<Longrightarrow> make_row pf ord = Inl KeyError"
  by (auto simp: make_row_def item_def and_then_def split: field.splits)

lemma process_order_KeyError:
  "o_symbol ord = Absent \<or> o_side ord = Absent \<Longrightarrow> process_order pf ord st = Inl KeyError"
  by (simp add: process_order_def make_row_KeyError and_then_def)

lemma process_orders_append:
  "process_orders pf (xs @ ys) st =
     (case process_orders pf xs st of Inl e \<Rightarrow> Inl e | Inr st' \<Rightarrow> process_orders pf ys st')"
  by (induction xs arbitrary: st) (auto split: sum.splits)

lemma process_orders_fails:
  assumes "ord \<in> set orders" and bad: "\<And>st. isl (process_order pf ord st)"
  shows "isl (process_orders pf orders st)"
  using assms(1)
proof (induction orders arbitrary: st)
  case Nil
  then show ?case by simp
next
  case (Cons x xs)
  show ?case
  proof (cases "process_order pf x st")
    case (Inl e)
    then show ?thesis by simp
  next
    case (Inr st')
    with bad[of st] have "ord \<noteq> x" by auto
    with Cons.prems have "ord \<in> set xs" by simp
    from Cons.IH[OF this] Inr show ?thesis by simp
  qed
qed

lemma classify_order_KeyError:
  assumes "has_fill_time ord"
    and "o_side ord = Absent \<or> (recognised ord \<and> o_symbol ord = Absent)"
  shows "classify_order pf ord = Inl KeyError"
  using assms
  by (auto simp: has_fill_time_def recognised_def classify_order_def item_def and_then_def
      strategy_of_spec split: option.splits)

lemma classify_append:
  "classify pf (xs @ ys) acc = and_then (classify pf xs acc) (classify pf ys)"
proof (induction xs arbitrary: acc)
  case Nil
  show ?case by (simp add: and_then_def)
next
  case (Cons x xs)
  obtain bs ss where "acc = (bs, ss)" by (cases acc)
  then show ?case
    by (simp add: Cons.IH and_then_def split: sum.splits classified.splits)
qed

lemma classify_fails:
  "ord \<in> set orders \<Longrightarrow> isl (classify_order pf ord) \<Longrightarrow> isl (classify pf orders acc)"
proof (induction orders arbitrary: acc)
  case Nil
  then show ?case by simp
next
  case (Cons x xs)
  obtain bs ss where "acc = (bs, ss)" by (cases acc)
  with Cons show ?case
    by (auto split: sum.splits classified.splits)
qed

lemma classify_order_skipped:
  "\<not> has_fill_time ord \<or> (o_side ord \<noteq> Absent \<and> \<not> recognised ord) \<Longrightarrow>
     classify_order pf ord = Inr Skipped"
  by (auto simp: has_fill_time_def recognised_def classify_order_def item_def and_then_def
      split: option.splits field.splits)

text \<open>
  Claim C4, as amended. In \<open>analyze_trades.py\<close> a record without \<open>symbol\<close> or
  \<open>side\<close> raises \<open>KeyError\<close> and every batch holding one fails, with no summary
  and no breakdown; the rows of the records before it have been printed by then. In
  \<open>analyze_win_rates.py\<close> a record that has a fill time and lacks \<open>side\<close>, or has
  side \<open>buy\<close> or \<open>sell\<close> and lacks \<open>symbol\<close>, raises \<open>KeyError\<close> and every
  batch holding one fails with no report. A record without fill time, or with a side
  that is there but is neither \<open>buy\<close> nor \<open>sell\<close>, is skipped whatever else it
  lacks.
\<close>

theorem malformed_order_fails:
  "(o_symbol ord = Absent \<or> o_side ord = Absent \<longrightarrow>
      make_row pf ord = Inl KeyError \<and>
      (ord \<in> set orders \<longrightarrow> isl (analyze_trades pf orders)) \<and>
      (process_orders pf before initial_state = Inr st \<longrightarrow>
         analyze_trades pf (before @ ord # rest) = Inl (KeyError, st))) \<and>
   (has_fill_time ord \<and> (o_side ord = Absent \<or> (recognised ord \<and> o_symbol ord = Absent)) \<longrightarrow>
      classify_order pf ord = Inl KeyError \<and>
      (ord \<in> set orders \<longrightarrow> isl (analyze_win_rates pf orders)) \<and>
      (classify pf before ([], []) = Inr acc \<longrightarrow>
         analyze_win_rates pf (before @ ord # rest) = Inl KeyError)) \<and>
   (\<not> has_fill_time other \<or> (o_side other \<noteq> Absent \<and> \<not> recognised other) \<longrightarrow>
      classify_order pf other = Inr Skipped)"
proof (intro conjI impI)
  assume "\<not> has_fill_time other \<or> (o_side other \<noteq> Absent \<and> \<not> recognised other)"
  then show "classify_order pf other = Inr Skipped"
    by (rule classify_order_skipped)
next
  assume bad: "o_symbol ord = Absent \<or> o_side ord = Absent"
  show "make_row pf ord = Inl KeyError"
    using bad by (rule make_row_KeyError)
  show "isl (analyze_trades pf orders)" if "ord \<in> set orders"
  proof -
    have "isl (process_orders pf orders initial_state)"
      using that bad by (intro process_orders_fails[of ord]) (simp_all add: process_order_KeyError)
    then show ?thesis
      by (auto simp: analyze_trades_def split: sum.splits)
  qed
  show "analyze_trades pf (before @ ord # rest) = Inl (KeyError, st)"
    if "process_orders pf before initial_state = Inr st"
    using that bad
    by (simp add: analyze_trades_def process_orders_append process_order_KeyError)
next
  assume bad: "has_fill_time ord \<and>
    (o_side ord = Absent \<or> (recognised ord \<and> o_symbol ord = Absent))"
  then have ke: "classify_order pf ord = Inl KeyError"
    by (simp add: classify_order_KeyError)
  show "classify_order pf ord = Inl KeyError" by (rule ke)
  show "isl (analyze_win_rates pf orders)" if "ord \<in> set orders"
  proof -
    have "isl (classify pf orders ([], []))"
      using classify_fails[OF that, of pf "([], [])"] ke by simp
    then show ?thesis
      by (auto simp: analyze_win_rates_def and_then_def split: sum.splits)
  qed
  show "analyze_win_rates pf (before @ ord # rest) = Inl KeyError"
    if "classify pf before ([], []) = Inr acc"
  proof -
    obtain bs ss where "acc = (bs, ss)" by (cases acc)
    with that ke show ?thesis
      by (simp add: analyze_win_rates_def classify_append and_then_def)
  qed
qed

text \<open>
  Claim C4 as stated fails: \<open>analyze_win_rates.py\<close> drops a record without fill time
  before it reads \<open>side\<close>, so a record lacking \<open>side\<close> and \<open>symbol\<close> can be
  skipped silently.
\<close>

theorem malformed_unfilled_counterexample:
  "o_side empty_order = Absent \<and> o_symbol empty_order = Absent \<and>
   analyze_win_rates decimal [empty_order] = Inr ([], [])"
  by code_simp

theorem malformed_order_fails_witness:
  "make_row decimal no_side_order = Inl KeyError \<and>
   isl (analyze_trades decimal [dip_order, no_side_order]) \<and>
   analyze_trades decimal [dip_order, no_side_order] = Inl (KeyError, dip_state) \<and>
   rows dip_state = [dip_row] \<and>
   classify_order decimal no_side_order = Inl KeyError \<and>
   isl (analyze_win_rates decimal [dip_order, no_side_order]) \<and>
   analyze_win_rates decimal [dip_order, no_side_order] = Inl KeyError \<and>
   classify_order decimal hold_order = Inr Skipped"
proof -
  note inst = malformed_order_fails[of no_side_order decimal "[dip_order, no_side_order]"
      "[dip_order]" dip_state "[]" "([dip_buy], [])" hold_order]
  have h0: "\<not> has_fill_time hold_order \<or>
      (o_side hold_order \<noteq> Absent \<and> \<not> recognised hold_order)"
    by (simp add: hold_order_def filled_order_def recognised_def)
  have h1: "o_symbol no_side_order = Absent \<or> o_side no_side_order = Absent"
    by (simp add: no_side_order_def empty_order_def)
  have h2: "has_fill_time no_side_order \<and>
      (o_side no_side_order = Absent \<or> (recognised no_side_order \<and> o_symbol no_side_order = Absent))"
    by (simp add: no_side_order_def empty_order_def has_fill_time_def get_def)
  have h3: "no_side_order \<in> set [dip_order, no_side_order]"
    by simp
  have h4: "process_orders decimal [dip_order] initial_state = Inr dip_state"
    by code_simp
  have h5: "classify decimal [dip_order] ([], []) = Inr ([dip_buy], [])"
    by code_simp
  have h6: "rows dip_state = [dip_row]"
    by (simp add: dip_state_def)
  from inst h0 h1 h2 h3 h4 h5 h6 show ?thesis
    by simp
qed

subsection \<open>A side that is neither buy nor sell\<close>












subsection \<open>Totals of the per-symbol aggregation\<close>















subsection \<open>The matching rule\<close>

lemma pop_middle: "pop (length xs) (xs @ b # ys) = xs @ ys"
  by (simp add: pop_def)

lemma first_match_None: "first_match s bs i = None \<longleftrightarrow> (\<forall>b\<in>set bs. \<not> eligible b s)"
  by (induction bs arbitrary: i) auto

lemma first_match_split:
  "(\<forall>x\<in>set xs. \<not> eligible x s) \<Longrightarrow> eligible b s \<Longrightarrow>
     first_match s (xs @ b # ys) i = Some (i + length xs, b)"
  by (induction xs arbitrary: i) auto


lemma find_split:
  "(\<forall>x\<in>set xs. \<not> P x) \<Longrightarrow> P b \<Longrightarrow> find P (xs @ b # ys) = Some b"
  by (induction xs) auto

lemma remove1_split: "b \<notin> set xs \<Longrightarrow> remove1 b (xs @ b # ys) = xs @ ys"
  by (induction xs) auto

lemma match_sell_none:
  "\<forall>b\<in>set pool. \<not> eligible b s \<Longrightarrow> match_sell s (pool, st) = Inr (pool, st)"
  by (simp add: match_sell_cases first_match_None[THEN iffD2])

lemma match_sell_first:
  assumes "\<forall>x\<in>set xs. \<not> eligible x s" and "eligible b s"
  shows "match_sell s (xs @ b # ys, st) =
     (if notional b = 0 then Inl ZeroDivisionError
      else Inr (xs @ ys, file_trade st (b, s)))"
  using first_match_split[OF assms, of ys 0]
  by (simp add: match_sell_cases pop_middle file_trade_def)

lemma find_eligible_None:
  "find (\<lambda>b. symbol b = symbol s \<and> time b < time s) pool = None \<longleftrightarrow>
     (\<forall>b\<in>set pool. \<not> eligible b s)"
  by (auto simp: find_None_iff eligible_def)

lemma find_eligible_Some:
  assumes "find (\<lambda>b. symbol b = symbol s \<and> time b < time s) pool = Some b"
  shows "\<exists>xs ys. pool = xs @ b # ys \<and> (\<forall>x\<in>set xs. \<not> eligible x s) \<and> eligible b s \<and>
           remove1 b pool = xs @ ys"
proof -
  from assms obtain i where i: "i < length pool" "eligible (pool ! i) s" "b = pool ! i"
    "\<forall>j<i. \<not> eligible (pool ! j) s"
    by (auto simp: find_Some_iff eligible_def)
  let ?xs = "take i pool" and ?ys = "drop (Suc i) pool"
  have split: "pool = ?xs @ b # ?ys"
    using i(1,3) by (simp add: id_take_nth_drop)
  have none: "\<forall>x\<in>set ?xs. \<not> eligible x s"
    using i(1,4) by (auto simp: in_set_conv_nth)
  with i(2,3) have "b \<notin> set ?xs" by auto
  then have "remove1 b (?xs @ b # ?ys) = ?xs @ ?ys"
    by (rule remove1_split)
  with split have "remove1 b pool = ?xs @ ?ys" by simp
  with split none i(2,3) show ?thesis by blast
qed

lemma match_sells_fifo:
  "match_sells ss (pool, st) =
     (if \<forall>m\<in>set (fst (fifo_match ss pool)). notional (fst m) \<noteq> 0
      then Inr (snd (fifo_match ss pool), foldl file_trade st (fst (fifo_match ss pool)))
      else Inl ZeroDivisionError)"
proof (induction ss arbitrary: pool st)
  case Nil
  show ?case by simp
next
  case (Cons s ss)
  show ?case
  proof (cases "find (\<lambda>b. symbol b = symbol s \<and> time b < time s) pool")
    case None
    then have "match_sell s (pool, st) = Inr (pool, st)"
      by (simp add: match_sell_none find_eligible_None)
    with None Cons.IH[of pool st] show ?thesis by simp
  next
    case (Some b)
    from find_eligible_Some[OF Some] obtain xs ys where
      pool: "pool = xs @ b # ys" and none: "\<forall>x\<in>set xs. \<not> eligible x s" and
      el: "eligible b s" and rem: "remove1 b pool = xs @ ys"
      by blast
    have step: "match_sell s (pool, st) =
        (if notional b = 0 then Inl ZeroDivisionError else Inr (xs @ ys, file_trade st (b, s)))"
      unfolding pool by (rule match_sell_first[OF none el])
    show ?thesis
    proof (cases "notional b = 0")
      case True
      with step Some show ?thesis
        by (simp split: prod.splits)
    next
      case False
      with step Some rem Cons.IH[of "xs @ ys" "file_trade st (b, s)"] show ?thesis
        by (simp split: prod.splits)
    qed
  qed
qed





subsection \<open>No buy is matched twice\<close>

lemma mset_all_trades_update:
  "mset (all_trades (update_stats k (record_trade t) st)) = add_mset t (mset (all_trades st))"
  by (induction st) (auto simp: all_trades_def record_trade_eq default_stats_def)

lemma mset_all_trades_foldl:
  "mset (all_trades (foldl file_trade st ms)) = mset (all_trades st) + mset (map trade_of ms)"
  by (induction ms arbitrary: st) (auto simp: file_trade_def mset_all_trades_update trade_of_def)

lemma all_trades_Nil: "all_trades [] = []"
  by (simp add: all_trades_def)

lemma fifo_match_Cons_None:
  "find (\<lambda>b. symbol b = symbol s \<and> time b < time s) pool = None \<Longrightarrow>
     fifo_match (s # ss) pool = fifo_match ss pool"
  by simp

lemma fifo_match_Cons_Some:
  "find (\<lambda>b. symbol b = symbol s \<and> time b < time s) pool = Some b \<Longrightarrow>
     fifo_match (s # ss) pool =
       ((b, s) # fst (fifo_match ss (remove1 b pool)), snd (fifo_match ss (remove1 b pool)))"
  by (simp split: prod.splits)

lemma fifo_match_buys:
  "mset (map fst (fst (fifo_match ss pool))) + mset (snd (fifo_match ss pool)) = mset pool"
proof (induction ss arbitrary: pool)
  case Nil
  show ?case by simp
next
  case (Cons s ss)
  show ?case
  proof (cases "find (\<lambda>b. symbol b = symbol s \<and> time b < time s) pool")
    case None
    with Cons.IH[of pool] show ?thesis
      by (simp only: fifo_match_Cons_None)
  next
    case (Some b)
    then have "b \<in> set pool"
      by (auto simp: find_Some_iff)
    then have "add_mset b (mset (remove1 b pool)) = mset pool"
      by simp
    with Cons.IH[of "remove1 b pool"] show ?thesis
      unfolding fifo_match_Cons_Some[OF Some] by simp
  qed
qed

lemma subset_add_mset: "A \<subseteq># B \<Longrightarrow> A \<subseteq># add_mset x B"
  by (auto simp: subseteq_mset_def le_SucI)

lemma fifo_match_sells: "mset (map snd (fst (fifo_match ss pool))) \<subseteq># mset ss"
proof (induction ss arbitrary: pool)
  case Nil
  show ?case by simp
next
  case (Cons s ss)
  show ?case
  proof (cases "find (\<lambda>b. symbol b = symbol s \<and> time b < time s) pool")
    case None
    with Cons.IH[of pool] show ?thesis
      by (simp only: fifo_match_Cons_None mset.simps subset_add_mset)
  next
    case (Some b)
    with Cons.IH[of "remove1 b pool"] show ?thesis
      unfolding fifo_match_Cons_Some[OF Some] by simp
  qed
qed

lemma fifo_match_eligible:
  "m \<in> set (fst (fifo_match ss pool)) \<Longrightarrow> eligible (fst m) (snd m)"
proof (induction ss arbitrary: pool)
  case Nil
  then show ?case by simp
next
  case (Cons s ss)
  show ?case
  proof (cases "find (\<lambda>b. symbol b = symbol s \<and> time b < time s) pool")
    case None
    with Cons show ?thesis
      by (simp only: fifo_match_Cons_None)
  next
    case (Some b)
    then have el: "eligible b s"
      by (auto simp: find_Some_iff eligible_def)
    from Cons.prems have "m = (b, s) \<or> m \<in> set (fst (fifo_match ss (remove1 b pool)))"
      unfolding fifo_match_Cons_Some[OF Some] by simp
    with el Cons.IH[of "remove1 b pool"] show ?thesis by auto
  qed
qed

lemma count_le_of_subset:
  assumes "mset xs \<subseteq># mset ys"
  shows "length (filter P xs) \<le> length (filter P ys)"
proof -
  from assms have "filter_mset P (mset xs) \<subseteq># filter_mset P (mset ys)"
    by (rule multiset_filter_mono)
  then have "size (filter_mset P (mset xs)) \<le> size (filter_mset P (mset ys))"
    by (rule size_mset_mono)
  then show ?thesis
    by (simp flip: mset_filter)
qed

lemma count_of_mset_eq:
  assumes "mset xs = mset ys"
  shows "length (filter P xs) = length (filter P ys)"
proof -
  from assms have "size (filter_mset P (mset xs)) = size (filter_mset P (mset ys))"
    by simp
  then show ?thesis
    by (simp flip: mset_filter)
qed

lemma analyze_win_rates_matches:
  assumes "classify pf orders ([], []) = Inr (bs, ss)"
    and "analyze_win_rates pf orders = Inr (open_buys, st)"
  shows "\<exists>ms. mset (map fst ms) + mset open_buys = mset bs \<and>
           mset (map snd ms) \<subseteq># mset ss \<and>
           mset (all_trades st) = mset (map trade_of ms) \<and>
           (\<forall>m\<in>set ms. eligible (fst m) (snd m))"
proof -
  let ?r = "fifo_match (sort_key time ss) (sort_key time bs)"
  from assms have run: "match_sells (sort_key time ss) (sort_key time bs, []) = Inr (open_buys, st)"
    by (simp add: analyze_win_rates_def and_then_def)
  then have res: "open_buys = snd ?r" "st = foldl file_trade [] (fst ?r)"
    by (auto simp: match_sells_fifo split: if_splits)
  have "mset (map fst (fst ?r)) + mset open_buys = mset bs"
    using fifo_match_buys[of "sort_key time ss" "sort_key time bs"] by (simp add: res)
  moreover have "mset (map snd (fst ?r)) \<subseteq># mset ss"
    using fifo_match_sells[of "sort_key time ss" "sort_key time bs"] by simp
  moreover have "mset (all_trades st) = mset (map trade_of (fst ?r))"
    by (simp add: res mset_all_trades_foldl all_trades_Nil)
  moreover have "\<forall>m\<in>set (fst ?r). eligible (fst m) (snd m)"
    by (auto dest: fifo_match_eligible)
  ultimately show ?thesis by blast
qed

text \<open>
  Claim C5. After a run that returns, the matched trades are the trades of a list of
  buy/sell pairs whose buys, together with the buys left open, are exactly the
  classified buys (counted with multiplicity, so no buy is matched twice) and whose
  sells are among the classified sells. Hence, for every symbol, matched trades plus
  open buys of that symbol make up its buys, and the number of its matched trades is at
  most the smaller of its buy count and its sell count.
\<close>

theorem matched_buy_never_reused:
  assumes "classify pf orders ([], []) = Inr (bs, ss)"
    and "analyze_win_rates pf orders = Inr (open_buys, st)"
  shows "(\<exists>ms. mset (map fst ms) + mset open_buys = mset bs \<and>
            mset (map snd ms) \<subseteq># mset ss \<and>
            mset (all_trades st) = mset (map trade_of ms)) \<and>
     length (filter (\<lambda>t. t_symbol t = x) (all_trades st)) +
       length (filter (\<lambda>b. symbol b = x) open_buys) = length (filter (\<lambda>b. symbol b = x) bs) \<and>
     length (filter (\<lambda>t. t_symbol t = x) (all_trades st))
       \<le> min (length (filter (\<lambda>b. symbol b = x) bs)) (length (filter (\<lambda>s. symbol s = x) ss))"
proof -
  from analyze_win_rates_matches[OF assms] obtain ms where
    buys: "mset (map fst ms) + mset open_buys = mset bs" and
    sells: "mset (map snd ms) \<subseteq># mset ss" and
    trades: "mset (all_trades st) = mset (map trade_of ms)" and
    el: "\<forall>m\<in>set ms. eligible (fst m) (snd m)"
    by blast
  let ?n = "length (filter (\<lambda>t. t_symbol t = x) (all_trades st))"
  have n_buys: "?n = length (filter (\<lambda>b. symbol b = x) (map fst ms))"
  proof -
    have "?n = length (filter (\<lambda>t. t_symbol t = x) (map trade_of ms))"
      using trades by (rule count_of_mset_eq)
    also have "\<dots> = length (filter (\<lambda>b. symbol b = x) (map fst ms))"
      by (simp add: filter_map comp_def trade_of_def make_trade_def)
    finally show ?thesis .
  qed
  have n_sells: "?n = length (filter (\<lambda>s. symbol s = x) (map snd ms))"
  proof -
    have "filter (\<lambda>m. symbol (fst m) = x) ms = filter (\<lambda>m. symbol (snd m) = x) ms"
      using el by (intro filter_cong) (auto simp: eligible_def)
    then show ?thesis
      by (simp add: n_buys filter_map comp_def)
  qed
  have "mset (map fst ms @ open_buys) = mset bs"
    using buys by simp
  then have "length (filter (\<lambda>b. symbol b = x) (map fst ms @ open_buys)) =
      length (filter (\<lambda>b. symbol b = x) bs)"
    by (rule count_of_mset_eq)
  then have total: "?n + length (filter (\<lambda>b. symbol b = x) open_buys) =
      length (filter (\<lambda>b. symbol b = x) bs)"
    by (simp add: n_buys)
  have "?n \<le> length (filter (\<lambda>s. symbol s = x) ss)"
    unfolding n_sells using sells by (rule count_le_of_subset)
  with total buys sells trades show ?thesis
    by (intro conjI exI[of _ ms]) simp_all
qed

theorem matched_buy_never_reused_witness:
  "classify decimal two_buys_orders ([], []) = Inr ([buy_T2, buy_MSFT, buy_T1], [sell_T3]) \<and>
   analyze_win_rates decimal two_buys_orders = Inr ([buy_MSFT, buy_T2], dip_stats) \<and>
   length (filter (\<lambda>t. t_symbol t = Some ''AAPL'') (all_trades dip_stats)) = 1 \<and>
   length (filter (\<lambda>b. symbol b = Some ''AAPL'') [buy_MSFT, buy_T2]) = 1 \<and>
   length (filter (\<lambda>b. symbol b = Some ''AAPL'') [buy_T2, buy_MSFT, buy_T1]) = 2 \<and>
   length (filter (\<lambda>s. symbol s = Some ''AAPL'') [sell_T3]) = 1"
proof -
  have h1: "classify decimal two_buys_orders ([], []) = Inr ([buy_T2, buy_MSFT, buy_T1], [sell_T3])"
    by code_simp
  have h2: "analyze_win_rates decimal two_buys_orders = Inr ([buy_MSFT, buy_T2], dip_stats)"
    by code_simp
  have c1: "length (filter (\<lambda>b. symbol b = Some ''AAPL'') [buy_MSFT, buy_T2]) = 1"
    and c2: "length (filter (\<lambda>b. symbol b = Some ''AAPL'') [buy_T2, buy_MSFT, buy_T1]) = 2"
    and c3: "length (filter (\<lambda>s. symbol s = Some ''AAPL'') [sell_T3]) = 1"
    by (simp_all add: buy_MSFT_def buy_T1_def buy_T2_def sell_T3_def)
  from matched_buy_never_reused[OF h1 h2, of "Some ''AAPL''"] c1 c2
  have "length (filter (\<lambda>t. t_symbol t = Some ''AAPL'') (all_trades dip_stats)) = 1"
    by simp
  with h1 h2 c1 c2 c3 show ?thesis by simp
qed

subsection \<open>Shuffling the input\<close>

lemma classify_Inr_iff:
  "classify pf orders (bs, ss) = Inr r \<longleftrightarrow>
     (\<forall>ord\<in>set orders. \<not> isl (classify_order pf ord)) \<and>
     r = (bs @ buys_of pf orders, ss @ sells_of pf orders)"
proof (induction orders arbitrary: bs ss)
  case Nil
  show ?case by (auto simp: buys_of_def sells_of_def)
next
  case (Cons x xs)
  show ?case
  proof (cases "classify_order pf x")
    case (Inl e)
    then show ?thesis by simp
  next
    case (Inr c)
    then show ?thesis
      by (cases c) (auto simp: Cons.IH buys_of_def sells_of_def)
  qed
qed

lemma mset_concat_map:
  "mset (concat (map f xs)) = sum_mset (image_mset (\<lambda>x. mset (f x)) (mset xs))"
  by (induction xs) auto

lemma mset_buys_of: "mset orders' = mset orders \<Longrightarrow> mset (buys_of pf orders') = mset (buys_of pf orders)"
  by (simp add: buys_of_def mset_concat_map)

lemma mset_sells_of: "mset orders' = mset orders \<Longrightarrow> mset (sells_of pf orders') = mset (sells_of pf orders)"
  by (simp add: sells_of_def mset_concat_map)

lemma sort_key_distinct_keys:
  assumes "mset xs' = mset xs" and "distinct (map f xs)"
  shows "sort_key f xs' = sort_key f xs"
proof (rule sort_key_inj_key_eq)
  show "mset xs' = mset (sort_key f xs)"
    using assms(1) by simp
  from assms(1) have "set xs' = set xs"
    by (rule mset_eq_setD)
  with assms(2) show "inj_on f (set xs')"
    by (simp add: distinct_map)
  show "sorted (map f (sort_key f xs))"
    by simp
qed

lemma classify_fails_perm:
  assumes "mset orders' = mset orders"
  shows "isl (classify pf orders' ([], [])) = isl (classify pf orders ([], []))"
proof -
  from assms have s: "set orders' = set orders"
    by (rule mset_eq_setD)
  have "\<not> isl (classify pf os ([], [])) \<longleftrightarrow> (\<forall>ord\<in>set os. \<not> isl (classify_order pf ord))" for os
    using classify_Inr_iff[of pf os "[]" "[]"] by (cases "classify pf os ([], [])") auto
  with s show ?thesis by metis
qed

text \<open>
  Claim C6, as amended. Shuffling the batch never changes whether classification fails.
  When classification succeeds and no two buys share a fill time and no two sells share
  a fill time, every shuffling of the batch gives the same run: the same matched trades,
  statistics and open buys, or the same exception. (The sort is by time only and stable,
  so fills with equal times keep their input order.)
\<close>

theorem matching_permutation_invariant:
  "(mset orders' = mset orders \<longrightarrow>
      isl (classify pf orders' ([], [])) = isl (classify pf orders ([], []))) \<and>
   (mset orders' = mset orders \<and> classify pf orders ([], []) = Inr (bs, ss) \<and>
    distinct (map time bs) \<and> distinct (map time ss) \<longrightarrow>
      analyze_win_rates pf orders' = analyze_win_rates pf orders)"
proof (intro conjI impI)
  assume "mset orders' = mset orders"
  then show "isl (classify pf orders' ([], [])) = isl (classify pf orders ([], []))"
    by (rule classify_fails_perm)
next
  assume a: "mset orders' = mset orders \<and> classify pf orders ([], []) = Inr (bs, ss) \<and>
    distinct (map time bs) \<and> distinct (map time ss)"
  then have perm: "mset orders' = mset orders" and set: "set orders' = set orders"
    by (auto dest: mset_eq_setD)
  from a have ok: "\<forall>ord\<in>set orders. \<not> isl (classify_order pf ord)"
    and bs: "bs = buys_of pf orders" and ss: "ss = sells_of pf orders"
    by (simp_all add: classify_Inr_iff)
  from ok set have c': "classify pf orders' ([], []) = Inr (buys_of pf orders', sells_of pf orders')"
    by (simp add: classify_Inr_iff)
  have "sort_key time (buys_of pf orders') = sort_key time bs"
    using a mset_buys_of[OF perm, of pf] by (intro sort_key_distinct_keys) (simp_all add: bs)
  moreover have "sort_key time (sells_of pf orders') = sort_key time ss"
    using a mset_sells_of[OF perm, of pf] by (intro sort_key_distinct_keys) (simp_all add: ss)
  ultimately show "analyze_win_rates pf orders' = analyze_win_rates pf orders"
    using a c' by (simp add: analyze_win_rates_def and_then_def)
qed

theorem matching_permutation_invariant_witness:
  "mset (rev two_buys_orders) = mset two_buys_orders \<and>
   classify decimal two_buys_orders ([], []) = Inr ([buy_T2, buy_MSFT, buy_T1], [sell_T3]) \<and>
   distinct (map time [buy_T2, buy_MSFT, buy_T1]) \<and> distinct (map time [sell_T3]) \<and>
   analyze_win_rates decimal (rev two_buys_orders) = Inr ([buy_MSFT, buy_T2], dip_stats)"
proof -
  have h1: "mset (rev two_buys_orders) = mset two_buys_orders"
    by simp
  have h2: "classify decimal two_buys_orders ([], []) = Inr ([buy_T2, buy_MSFT, buy_T1], [sell_T3])"
    by code_simp
  have h3: "distinct (map time [buy_T2, buy_MSFT, buy_T1])" and h4: "distinct (map time [sell_T3])"
    by (simp_all add: buy_T2_def buy_MSFT_def buy_T1_def)
  have run: "analyze_win_rates decimal two_buys_orders = Inr ([buy_MSFT, buy_T2], dip_stats)"
    by code_simp
  from matching_permutation_invariant[of "rev two_buys_orders" two_buys_orders decimal
      "[buy_T2, buy_MSFT, buy_T1]" "[sell_T3]"] h1 h2 h3 h4
  have "analyze_win_rates decimal (rev two_buys_orders) = analyze_win_rates decimal two_buys_orders"
    by blast
  with run h1 h2 h3 h4 show ?thesis by simp
qed

text \<open>
  Claim C6 as stated fails: with two buys filled at the same time, swapping them in the
  input changes which one the sell is matched with.
\<close>

theorem tied_timestamps_counterexample:
  "mset tie_orders_swapped = mset tie_orders \<and>
   analyze_win_rates decimal tie_orders \<noteq> analyze_win_rates decimal tie_orders_swapped"
proof -
  have a: "analyze_win_rates decimal tie_orders =
      Inr ([\<lparr>symbol = Some ''AAPL'', price = 90, qty = 1, time = ''2026-01-14T10:00:00Z'',
              notional = 90, strategy = ''gap''\<rparr>],
           [(''dip'', \<lparr>wins = 1, losses = 0, total_pnl = 10,
              trades = [\<lparr>t_symbol = Some ''AAPL'', buy_price = 100, sell_price = 110, pnl = 10,
                         pnl_pct = 10, date = ''2026-01-14''\<rparr>]\<rparr>)])"
    by code_simp
  have b: "analyze_win_rates decimal tie_orders_swapped =
      Inr ([\<lparr>symbol = Some ''AAPL'', price = 100, qty = 1, time = ''2026-01-14T10:00:00Z'',
              notional = 100, strategy = ''dip''\<rparr>],
           [(''gap'', \<lparr>wins = 1, losses = 0, total_pnl = 20,
              trades = [\<lparr>t_symbol = Some ''AAPL'', buy_price = 90, sell_price = 110, pnl = 20,
                         pnl_pct = 200 / 9, date = ''2026-01-14''\<rparr>]\<rparr>)])"
    by code_simp
  have "mset tie_orders_swapped = mset tie_orders"
    by (simp add: tie_orders_def tie_orders_swapped_def)
  then show ?thesis
    unfolding a b by simp
qed

end
